theory Spec2Isabelle
  imports Main "HOL-Library.Word"
begin

chapter \<open>The multi-domain monitor\<close>

text \<open>
  A model of \<^verbatim>\<open>src/monitoring/monitor.cpp\<close>: the parser of the domain specification, the
  choice of the domains, the setup loop that builds one session per domain, and the
  callbacks that drain the readers. Functions keep the names of the source. What the
  program receives from outside (the environment, the answers of the middleware, the
  samples of a reader, the values read from the stop flag) is an argument of the
  function that uses it; what it does to the outside (calls on the middleware, lines
  on the console) is part of the result.
\<close>

section \<open>C library conversions used by the monitor\<close>

text \<open>
  The monitor stores domain identifiers in the C++ type \<^verbatim>\<open>int\<close> (32 bits on every
  platform the middleware supports). Values are modelled as HOL integers together with
  the bounds of the type; an operation whose mathematical result leaves the bounds has
  no defined result in C++ and is modelled by the error value below.
\<close>

definition INT_MAX :: int where
  "INT_MAX = 2147483647"

definition INT_MIN :: int where
  "INT_MIN = - 2147483648"

datatype error = Undefined_Behaviour

definition isspace :: "char \<Rightarrow> bool" where
  "isspace c \<longleftrightarrow> (of_char c :: nat) = 32 \<or> (9 \<le> (of_char c :: nat) \<and> (of_char c :: nat) \<le> 13)"

definition isdigit :: "char \<Rightarrow> bool" where
  "isdigit c \<longleftrightarrow> 48 \<le> (of_char c :: nat) \<and> (of_char c :: nat) \<le> 57"

definition digit_value :: "char \<Rightarrow> int" where
  "digit_value c = int (of_char c) - 48"

text \<open>The value of the longest prefix of decimal digits, continuing from \<open>acc\<close>.\<close>

fun atoi_digits :: "int \<Rightarrow> string \<Rightarrow> int" where
  "atoi_digits acc [] = acc"
| "atoi_digits acc (c # cs) =
     (if isdigit c then atoi_digits (acc * 10 + digit_value c) cs else acc)"

text \<open>
  \<^verbatim>\<open>std::atoi\<close>: skip leading white space, read an optional sign, then the longest run
  of decimal digits; no digits give 0. A value that \<^verbatim>\<open>int\<close> cannot represent is
  undefined behaviour.
\<close>

definition atoi :: "string \<Rightarrow> error + int" where
  "atoi s =
     (let s1 = dropWhile isspace s;
          neg = (case s1 of [] \<Rightarrow> False | c # _ \<Rightarrow> c = CHR ''-'');
          s2 = (case s1 of [] \<Rightarrow> [] | c # cs \<Rightarrow> if c = CHR ''-'' \<or> c = CHR ''+'' then cs else s1);
          v = atoi_digits 0 s2;
          r = (if neg then - v else v)
      in if INT_MIN \<le> r \<and> r \<le> INT_MAX then Inr r else Inl Undefined_Behaviour)"

section \<open>The domain range parser\<close>

text \<open>\<^verbatim>\<open>std::string::find(ch)\<close>: the first position of the character, \<open>None\<close> for npos.\<close>

fun find_char :: "string \<Rightarrow> char \<Rightarrow> nat option" where
  "find_char [] ch = None"
| "find_char (c # cs) ch = (if c = ch then Some 0 else map_option Suc (find_char cs ch))"

text \<open>
  \<^verbatim>\<open>substr(pos, count)\<close> and \<^verbatim>\<open>substr(pos)\<close>. The parser calls them with
  \<open>pos \<le> size\<close> only, where they do not throw.
\<close>

definition substr_count :: "string \<Rightarrow> nat \<Rightarrow> nat \<Rightarrow> string" where
  "substr_count s pos n = take n (drop pos s)"

definition substr :: "string \<Rightarrow> nat \<Rightarrow> string" where
  "substr s pos = drop pos s"

text \<open>
  \<^verbatim>\<open>std::getline(ss, token, delim)\<close> on the unread rest of the stream: it fails (\<open>None\<close>)
  when nothing is left; otherwise the token is everything before the first delimiter, and
  the delimiter is consumed.
\<close>

fun getline :: "string \<Rightarrow> char \<Rightarrow> (string \<times> string) option" where
  "getline [] delim = None"
| "getline (c # cs) delim =
     Some (takeWhile (\<lambda>x. x \<noteq> delim) (c # cs), drop 1 (dropWhile (\<lambda>x. x \<noteq> delim) (c # cs)))"

text \<open>
  The loop \<^verbatim>\<open>for (int d = start; d <= end; ++d) result.push_back(d);\<close>. Incrementing
  \<open>d = INT_MAX\<close> is a signed overflow.
\<close>

function range_loop :: "int \<Rightarrow> int \<Rightarrow> int list \<Rightarrow> error + int list" where
  "range_loop d e result =
     (if d \<le> e
      then (if d = INT_MAX then Inl Undefined_Behaviour
            else range_loop (d + 1) e (result @ [d]))
      else Inr result)"
  by pat_completeness auto
termination
  by (relation "measure (\<lambda>(d, e, result). nat (e + 1 - d))") auto

text \<open>The body of the token loop of \<^verbatim>\<open>parse_domains_from_input\<close>.\<close>

definition parse_token :: "string \<Rightarrow> int list \<Rightarrow> error + int list" where
  "parse_token token result =
     (if token = [] then Inr result
      else case find_char token (CHR ''-'') of
        Some dash \<Rightarrow>
          (let start_str = substr_count token 0 dash;
               end_str = substr token (dash + 1)
           in if start_str \<noteq> [] \<and> end_str \<noteq> [] then
                (case atoi start_str of
                   Inl err \<Rightarrow> Inl err
                 | Inr start \<Rightarrow>
                     (case atoi end_str of
                        Inl err \<Rightarrow> Inl err
                      | Inr e \<Rightarrow>
                          if e < start then range_loop e start result
                          else range_loop start e result))
              else Inr result)
      | None \<Rightarrow>
          (case atoi token of
             Inl err \<Rightarrow> Inl err
           | Inr v \<Rightarrow> Inr (result @ [v])))"

function parse_loop :: "string \<Rightarrow> int list \<Rightarrow> error + int list" where
  "parse_loop ss result =
     (case getline ss (CHR '','') of
        None \<Rightarrow> Inr result
      | Some (token, rest) \<Rightarrow>
          (case parse_token token result of
             Inl err \<Rightarrow> Inl err
           | Inr result' \<Rightarrow> parse_loop rest result'))"
  by pat_completeness auto
termination
proof (relation "measure (\<lambda>(ss, result). length ss)", goal_cases)
  case 1
  show ?case by simp
next
  case (2 ss result x2 token rest result')
  then obtain c cs where ss: "ss = c # cs"
    by (cases ss) auto
  with 2 have "rest = drop 1 (dropWhile (\<lambda>x. x \<noteq> CHR '','') (c # cs))"
    by auto
  moreover have "length (dropWhile (\<lambda>x. x \<noteq> CHR '','') (c # cs)) \<le> length (c # cs)"
    by (rule length_dropWhile_le)
  ultimately show ?case using ss by simp
qed

definition parse_domains_from_input :: "string \<Rightarrow> error + int list" where
  "parse_domains_from_input input = parse_loop input []"

section \<open>Choosing the domains (start of \<^verbatim>\<open>main\<close>)\<close>

text \<open>
  \<open>argv\<close> is the argument vector (\<open>argc = length argv\<close>) and \<open>getenv\<close> the process
  environment. Besides the chosen domains the result lists the environment variables
  that were read, so that "the environment is not consulted" can be stated.
\<close>

definition default_domains :: "int list" where
  "default_domains = [0, 1, 2, 3, 4, 5]"

definition resolve_domains ::
  "string list \<Rightarrow> (string \<Rightarrow> string option) \<Rightarrow> error + (int list \<times> string list)" where
  "resolve_domains argv getenv =
     (if length argv > 1 \<and> length (argv ! 1) > 0 then
        (case parse_domains_from_input (argv ! 1) of
           Inl err \<Rightarrow> Inl err
         | Inr domains \<Rightarrow> Inr (if domains = [] then default_domains else domains, []))
      else
        (case getenv ''MONITOR_DOMAINS'' of
           Some env \<Rightarrow>
             (case parse_domains_from_input env of
                Inl err \<Rightarrow> Inl err
              | Inr domains \<Rightarrow>
                  Inr (if domains = [] then default_domains else domains, [''MONITOR_DOMAINS'']))
         | None \<Rightarrow> Inr (default_domains, [''MONITOR_DOMAINS''])))"

section \<open>Decimal output\<close>

text \<open>What \<^verbatim>\<open>operator<<\<close> writes for a \<^verbatim>\<open>size_t\<close> and for an \<^verbatim>\<open>int\<close>.\<close>

fun show_nat :: "nat \<Rightarrow> string" where
  "show_nat n =
     (if n < 10 then [''0123456789'' ! n]
      else show_nat (n div 10) @ [''0123456789'' ! (n mod 10)])"

definition show_int :: "int \<Rightarrow> string" where
  "show_int i = (if i < 0 then CHR ''-'' # show_nat (nat (- i)) else show_nat (nat i))"

section \<open>Domain sessions (the setup loop of \<^verbatim>\<open>main\<close>)\<close>

datatype ReliabilityQosPolicyKind = BEST_EFFORT_RELIABILITY_QOS | RELIABLE_RELIABILITY_QOS

datatype DurabilityQosPolicyKind =
  VOLATILE_DURABILITY_QOS | TRANSIENT_LOCAL_DURABILITY_QOS
  | TRANSIENT_DURABILITY_QOS | PERSISTENT_DURABILITY_QOS

datatype HistoryQosPolicyKind = KEEP_LAST_HISTORY_QOS | KEEP_ALL_HISTORY_QOS

record DataReaderQos =
  reliability :: ReliabilityQosPolicyKind
  durability :: DurabilityQosPolicyKind
  history :: HistoryQosPolicyKind
  properties :: "(string \<times> string) list"

text \<open>
  The middleware's \<^verbatim>\<open>DATAREADER_QOS_DEFAULT\<close> as the library documents it: best-effort,
  volatile, keep-last, no properties. A subscriber created with the default subscriber
  QoS and no profile file hands out the same value as its default reader QoS.
\<close>

definition DATAREADER_QOS_DEFAULT :: DataReaderQos where
  "DATAREADER_QOS_DEFAULT =
     \<lparr>reliability = BEST_EFFORT_RELIABILITY_QOS, durability = VOLATILE_DURABILITY_QOS,
      history = KEEP_LAST_HISTORY_QOS, properties = []\<rparr>"

text \<open>
  Lines 355 to 361 of \<^verbatim>\<open>main\<close>. \<open>qos_default\<close> is the constant the code starts from and
  \<open>subscriber_default\<close> the value that \<^verbatim>\<open>get_default_datareader_qos(rqos)\<close> writes into
  its reference argument (the call assigns the subscriber's default reader QoS to it).
\<close>

definition build_reader_qos :: "DataReaderQos \<Rightarrow> DataReaderQos \<Rightarrow> DataReaderQos" where
  "build_reader_qos qos_default subscriber_default =
     (let rqos = qos_default;
          rqos = rqos\<lparr>properties := properties rqos @ [(''rtps.payload_protection'', ''ENCRYPT'')]\<rparr>;
          rqos = subscriber_default;
          rqos = rqos\<lparr>reliability := RELIABLE_RELIABILITY_QOS\<rparr>;
          rqos = rqos\<lparr>durability := TRANSIENT_LOCAL_DURABILITY_QOS\<rparr>;
          rqos = rqos\<lparr>history := KEEP_ALL_HISTORY_QOS\<rparr>
      in rqos)"

type_synonym handle = nat

datatype record_kind = CoreData | Intelligence | Messaging

text \<open>
  A listener object: its members \<^verbatim>\<open>samples_\<close> (a \<^verbatim>\<open>size_t\<close>, 64 bits) and
  \<^verbatim>\<open>domain_id_\<close>.
\<close>

record Monitor =
  m_samples :: "64 word"
  m_domain_id :: int

definition new_Monitor :: "int \<Rightarrow> Monitor" where
  "new_Monitor domain_id = \<lparr>m_samples = 0, m_domain_id = domain_id\<rparr>"

record DomainContext =
  ctx_id :: int
  participant :: "handle option"
  subscriber :: "handle option"
  cd_topic :: "handle option"
  cd2_topic :: "handle option"
  cd3_topic :: "handle option"
  cd4_topic :: "handle option"
  intel_topic :: "handle option"
  msg_topic :: "handle option"
  cd_reader :: "handle option"
  cd2_reader :: "handle option"
  cd3_reader :: "handle option"
  cd4_reader :: "handle option"
  intel_reader :: "handle option"
  msg_reader :: "handle option"
  cd_listener :: "Monitor option"
  intel_listener :: "Monitor option"
  msg_listener :: "Monitor option"

definition empty_context :: "int \<Rightarrow> DomainContext" where
  "empty_context domain_id =
     \<lparr>ctx_id = domain_id, participant = None, subscriber = None,
      cd_topic = None, cd2_topic = None, cd3_topic = None, cd4_topic = None,
      intel_topic = None, msg_topic = None,
      cd_reader = None, cd2_reader = None, cd3_reader = None, cd4_reader = None,
      intel_reader = None, msg_reader = None,
      cd_listener = None, intel_listener = None, msg_listener = None\<rparr>"

text \<open>
  What the middleware answers during one iteration of the setup loop: a handle, or
  \<open>None\<close> for the null pointer of a failed creation.
\<close>

record bus_replies =
  create_participant :: "handle option"
  create_subscriber :: "handle option"
  get_default_datareader_qos :: DataReaderQos
  create_topic :: "string \<Rightarrow> handle option"
  create_datareader :: "handle \<Rightarrow> handle option"

text \<open>The calls an iteration makes on the middleware and the lines it logs, in order.\<close>

datatype bus_call =
    Create_participant int
  | Delete_participant handle
  | Create_subscriber handle
  | Register_type handle record_kind
  | Create_topic handle string record_kind
  | Create_datareader handle handle DataReaderQos record_kind
  | Cout string
  | Cerr string

text \<open>
  \<^verbatim>\<open>topic ? subscriber->create_datareader(topic, rqos, listener) : nullptr\<close>, with the
  call it makes, if any.
\<close>

definition reader_for ::
  "bus_replies \<Rightarrow> handle \<Rightarrow> DataReaderQos \<Rightarrow> record_kind \<Rightarrow> handle option
     \<Rightarrow> handle option \<times> bus_call list" where
  "reader_for bus sub rqos kind topic =
     (case topic of
        None \<Rightarrow> (None, [])
      | Some t \<Rightarrow> (create_datareader bus t, [Create_datareader sub t rqos kind]))"

text \<open>
  One iteration of the loop over the requested domains (lines 312 to 397): the calls and
  log lines it produces, and the session it appends to \<open>contexts\<close>, if any.
\<close>

definition setup_domain ::
  "DataReaderQos \<Rightarrow> int \<Rightarrow> bus_replies \<Rightarrow> bus_call list \<times> DomainContext option" where
  "setup_domain qos_default domain_id bus =
     (case create_participant bus of
        None \<Rightarrow>
          ([Create_participant domain_id,
            Cerr (''Failed to create DomainParticipant for domain '' @ show_int domain_id)],
           None)
      | Some p \<Rightarrow>
          (case create_subscriber bus of
             None \<Rightarrow>
               ([Create_participant domain_id,
                 Cout (''Monitor: DomainParticipant created for domain '' @ show_int domain_id),
                 Create_subscriber p,
                 Cerr (''Failed to create Subscriber for domain '' @ show_int domain_id),
                 Delete_participant p],
                None)
           | Some sub \<Rightarrow>
               (let rqos = build_reader_qos qos_default (get_default_datareader_qos bus);
                    ctx = (empty_context domain_id)\<lparr>participant := Some p, subscriber := Some sub\<rparr>;
                    ctx = ctx\<lparr>cd_topic := create_topic bus ''CoreDataTopic'',
                              cd2_topic := create_topic bus ''CoreData2Topic'',
                              cd3_topic := create_topic bus ''CoreData3Topic'',
                              cd4_topic := create_topic bus ''CoreData4Topic'',
                              intel_topic := create_topic bus ''IntelligenceTopic'',
                              msg_topic := create_topic bus ''MessagingTopic''\<rparr>;
                    ctx = ctx\<lparr>cd_listener := Some (new_Monitor domain_id),
                              intel_listener := Some (new_Monitor domain_id),
                              msg_listener := Some (new_Monitor domain_id)\<rparr>;
                    (r1, c1) = reader_for bus sub rqos CoreData (cd_topic ctx);
                    (r2, c2) = reader_for bus sub rqos CoreData (cd2_topic ctx);
                    (r3, c3) = reader_for bus sub rqos CoreData (cd3_topic ctx);
                    (r4, c4) = reader_for bus sub rqos CoreData (cd4_topic ctx);
                    (r5, c5) = reader_for bus sub rqos Intelligence (intel_topic ctx);
                    (r6, c6) = reader_for bus sub rqos Messaging (msg_topic ctx);
                    ctx = ctx\<lparr>cd_reader := r1, cd2_reader := r2, cd3_reader := r3,
                              cd4_reader := r4, intel_reader := r5, msg_reader := r6\<rparr>
                in ([Create_participant domain_id,
                     Cout (''Monitor: DomainParticipant created for domain '' @ show_int domain_id),
                     Create_subscriber p,
                     Cout (''Monitor: Subscriber created for domain '' @ show_int domain_id),
                     Register_type p CoreData,
                     Create_topic p ''CoreDataTopic'' CoreData,
                     Create_topic p ''CoreData2Topic'' CoreData,
                     Create_topic p ''CoreData3Topic'' CoreData,
                     Create_topic p ''CoreData4Topic'' CoreData,
                     Register_type p Intelligence,
                     Create_topic p ''IntelligenceTopic'' Intelligence,
                     Register_type p Messaging,
                     Create_topic p ''MessagingTopic'' Messaging]
                    @ c1 @ c2 @ c3 @ c4 @ c5 @ c6
                    @ [Cout (''Monitor: DataReaders created for domain '' @ show_int domain_id)],
                    Some ctx))))"

text \<open>
  The loop itself. Each requested domain comes with the middleware's answers for its
  iteration; the state is the vector \<open>contexts\<close> and the calls made so far.
\<close>

fun setup_loop ::
  "DataReaderQos \<Rightarrow> (int \<times> bus_replies) list \<Rightarrow> DomainContext list \<times> bus_call list
     \<Rightarrow> DomainContext list \<times> bus_call list" where
  "setup_loop qos_default [] (contexts, calls) = (contexts, calls)"
| "setup_loop qos_default ((domain_id, bus) # rest) (contexts, calls) =
     (case setup_domain qos_default domain_id bus of
        (cs, None) \<Rightarrow> setup_loop qos_default rest (contexts, calls @ cs)
      | (cs, Some ctx) \<Rightarrow> setup_loop qos_default rest (contexts @ [ctx], calls @ cs))"

section \<open>Listeners: draining a reader\<close>

datatype InstanceStateKind =
  ALIVE_INSTANCE_STATE | NOT_ALIVE_DISPOSED_INSTANCE_STATE | NOT_ALIVE_NO_WRITERS_INSTANCE_STATE

record SampleInfo =
  instance_state :: InstanceStateKind
  valid_data :: bool

datatype ReturnCode_t = RETCODE_OK | RETCODE_NO_DATA

text \<open>
  A reader as the callback sees it: the name of its topic (\<open>None\<close> when
  \<^verbatim>\<open>get_topicdescription()\<close> is null) and the samples it will hand out, oldest first.
\<close>

record 's DataReader =
  get_topicdescription :: "string option"
  queue :: "('s \<times> SampleInfo) list"

text \<open>
  \<^verbatim>\<open>take_next_sample\<close>: the next sample with its info (return code \<^verbatim>\<open>RETCODE_OK\<close>),
  removed from the reader, or a code other than \<^verbatim>\<open>RETCODE_OK\<close> when none is left.
\<close>

definition take_next_sample ::
  "'s DataReader \<Rightarrow> (ReturnCode_t + 's \<times> SampleInfo) \<times> 's DataReader" where
  "take_next_sample reader =
     (case queue reader of
        [] \<Rightarrow> (Inl RETCODE_NO_DATA, reader)
      | x # xs \<Rightarrow> (Inr x, reader\<lparr>queue := xs\<rparr>))"

definition newline :: string where
  "newline = [CHR 0x0A]"

text \<open>The topic classifier, lines 76 to 83 of \<^verbatim>\<open>CoreDataMonitor::on_data_available\<close>.\<close>

definition subtype :: "'s DataReader \<Rightarrow> string" where
  "subtype reader =
     (let topic_name = (case get_topicdescription reader of Some n \<Rightarrow> n | None \<Rightarrow> [])
      in if topic_name \<noteq> [] then
           (if topic_name = ''CoreData2Topic'' then ''coredata2''
            else if topic_name = ''CoreData3Topic'' then ''coredata3''
            else if topic_name = ''CoreData4Topic'' then ''coredata4''
            else ''coredata'')
         else ''coredata'')"

text \<open>The first line of a record, for each of the three listener classes.\<close>

definition CoreData_header :: "'s DataReader \<Rightarrow> Monitor \<Rightarrow> string" where
  "CoreData_header reader L =
     ''[domain='' @ show_int (m_domain_id L) @ ''] TOPIC: aircraft '' @ subtype reader @ newline"

definition Intelligence_header :: "'s DataReader \<Rightarrow> Monitor \<Rightarrow> string" where
  "Intelligence_header reader L =
     ''[domain='' @ show_int (m_domain_id L) @ ''] TOPIC: intelligence'' @ newline"

definition Messaging_header :: "'s DataReader \<Rightarrow> Monitor \<Rightarrow> string" where
  "Messaging_header reader L =
     ''[domain='' @ show_int (m_domain_id L) @ ''] TOPIC: messaging'' @ newline"

text \<open>
  The text of one record once the counter has its new value \<open>n\<close>: the header, the
  sequence line and the field list. \<open>body\<close> renders the field list \<^verbatim>\<open> - {...}\<close> of a
  sample; the sample types and the output format of their floating-point fields belong
  to generated code and to the stream library.
\<close>

definition record_text :: "string \<Rightarrow> 64 word \<Rightarrow> string \<Rightarrow> string" where
  "record_text header n field_list =
     header @ ''Sample '' @ [CHR 0x27] @ show_nat (unat n) @ [CHR 0x27] @ '' RECEIVED'' @ newline
     @ field_list"

text \<open>
  The body of the drain loop for a sample that was taken: the listener and the console
  stream before and after. An accepted sample is formatted (which increments the
  counter) and written with \<^verbatim>\<open>std::endl\<close>.
\<close>

definition handle_sample ::
  "string \<Rightarrow> ('s \<Rightarrow> string) \<Rightarrow> Monitor \<Rightarrow> 's \<Rightarrow> SampleInfo \<Rightarrow> string \<Rightarrow> Monitor \<times> string" where
  "handle_sample header body L sample info out =
     (if instance_state info = ALIVE_INSTANCE_STATE \<and> valid_data info then
        (let L' = L\<lparr>m_samples := m_samples L + 1\<rparr>;
             oss = record_text header (m_samples L') (body sample)
         in (L', out @ oss @ newline))
      else (L, out))"

text \<open>
  The loop \<^verbatim>\<open>while (!g_stop.load() && reader->take_next_sample(&sample, &info) == RETCODE_OK)\<close>.
  The stop flag is written by the signal handlers while the loop runs, so the loop is
  given the values its successive loads return: \<open>g_stop k\<close> is what load number \<open>k\<close>
  of this callback reads.
\<close>

function drain ::
  "('s DataReader \<Rightarrow> Monitor \<Rightarrow> string) \<Rightarrow> ('s \<Rightarrow> string) \<Rightarrow> (nat \<Rightarrow> bool) \<Rightarrow> nat
     \<Rightarrow> Monitor \<Rightarrow> 's DataReader \<Rightarrow> string \<Rightarrow> Monitor \<times> 's DataReader \<times> string" where
  "drain header body g_stop k L reader out =
     (if \<not> g_stop k then
        (case take_next_sample reader of
           (Inr (sample, info), reader') \<Rightarrow>
             (case handle_sample (header reader' L) body L sample info out of
                (L', out') \<Rightarrow> drain header body g_stop (k + 1) L' reader' out')
         | (Inl rc, reader') \<Rightarrow> (L, reader', out))
      else (L, reader, out))"
  by pat_completeness auto
termination
  by (relation "measure (\<lambda>(header, body, g_stop, k, L, reader, out). length (queue reader))")
    (auto simp: take_next_sample_def split: list.splits)

definition CoreDataMonitor_on_data_available ::
  "('s \<Rightarrow> string) \<Rightarrow> (nat \<Rightarrow> bool) \<Rightarrow> Monitor \<Rightarrow> 's DataReader \<Rightarrow> string
     \<Rightarrow> Monitor \<times> 's DataReader \<times> string" where
  "CoreDataMonitor_on_data_available body g_stop L reader out =
     drain CoreData_header body g_stop 0 L reader out"

definition IntelligenceMonitor_on_data_available ::
  "('s \<Rightarrow> string) \<Rightarrow> (nat \<Rightarrow> bool) \<Rightarrow> Monitor \<Rightarrow> 's DataReader \<Rightarrow> string
     \<Rightarrow> Monitor \<times> 's DataReader \<times> string" where
  "IntelligenceMonitor_on_data_available body g_stop L reader out =
     drain Intelligence_header body g_stop 0 L reader out"

definition MessagingMonitor_on_data_available ::
  "('s \<Rightarrow> string) \<Rightarrow> (nat \<Rightarrow> bool) \<Rightarrow> Monitor \<Rightarrow> 's DataReader \<Rightarrow> string
     \<Rightarrow> Monitor \<times> 's DataReader \<times> string" where
  "MessagingMonitor_on_data_available body g_stop L reader out =
     drain Messaging_header body g_stop 0 L reader out"

text \<open>The callback of the listener class that serves a record kind.\<close>

definition on_data_available ::
  "record_kind \<Rightarrow> ('s \<Rightarrow> string) \<Rightarrow> (nat \<Rightarrow> bool) \<Rightarrow> Monitor \<Rightarrow> 's DataReader \<Rightarrow> string
     \<Rightarrow> Monitor \<times> 's DataReader \<times> string" where
  "on_data_available kind =
     (case kind of
        CoreData \<Rightarrow> CoreDataMonitor_on_data_available
      | Intelligence \<Rightarrow> IntelligenceMonitor_on_data_available
      | Messaging \<Rightarrow> MessagingMonitor_on_data_available)"

section \<open>Vocabulary of the statements about the parser\<close>

text \<open>
  The definitions of this section belong to the statements, not to the program: they
  say what an input built from tokens is and what the specification expects for it.
\<close>

text \<open>The input text whose comma-separated tokens are the given strings.\<close>

fun join_commas :: "string list \<Rightarrow> string" where
  "join_commas [] = []"
| "join_commas [t] = t"
| "join_commas (t # u # ts) = t @ CHR '','' # join_commas (u # ts)"

text \<open>The token loop run on a list of tokens instead of on the text.\<close>

fun parse_tokens :: "string list \<Rightarrow> int list \<Rightarrow> error + int list" where
  "parse_tokens [] result = Inr result"
| "parse_tokens (t # ts) result =
     (case parse_token t result of Inl err \<Rightarrow> Inl err | Inr result' \<Rightarrow> parse_tokens ts result')"

text \<open>
  The number a string of decimal digits denotes, by the positional rule read from the
  least significant digit.
\<close>

fun decimal_rev :: "string \<Rightarrow> int" where
  "decimal_rev [] = 0"
| "decimal_rev (c # cs) = digit_value c + 10 * decimal_rev cs"

definition decimal :: "string \<Rightarrow> int" where
  "decimal ds = decimal_rev (rev ds)"

definition is_number :: "string \<Rightarrow> bool" where
  "is_number ds \<longleftrightarrow> ds \<noteq> [] \<and> list_all isdigit ds"

text \<open>
  A token of a valid domain specification: a single non-negative integer, or a range
  \<open>a-b\<close> of two; both written in decimal digits.
\<close>

datatype spec_token = Single string | Range string string

fun token_text :: "spec_token \<Rightarrow> string" where
  "token_text (Single a) = a"
| "token_text (Range a b) = a @ ''-'' @ b"

fun valid_token :: "spec_token \<Rightarrow> bool" where
  "valid_token (Single a) = is_number a"
| "valid_token (Range a b) = (is_number a \<and> is_number b)"

text \<open>
  What the specification expects of a token: the integer itself, or the ascending
  inclusive sequence between the two endpoints, whichever endpoint comes first.
\<close>

fun token_domains :: "spec_token \<Rightarrow> int list" where
  "token_domains (Single a) = [decimal a]"
| "token_domains (Range a b) = [min (decimal a) (decimal b) .. max (decimal a) (decimal b)]"

text \<open>
  The numbers of a token are representable in \<^verbatim>\<open>int\<close>, and the loop over a range
  never has to increment \<open>INT_MAX\<close>.
\<close>

fun fits_int :: "spec_token \<Rightarrow> bool" where
  "fits_int (Single a) = (decimal a \<le> INT_MAX)"
| "fits_int (Range a b) = (decimal a < INT_MAX \<and> decimal b < INT_MAX)"

text \<open>
  A token without a hyphen in which \<^verbatim>\<open>atoi\<close> finds no digit to read: after leading
  white space and an optional plus sign, the text does not start with a digit.
\<close>

definition unnumbered :: "string \<Rightarrow> bool" where
  "unnumbered t \<longleftrightarrow>
     CHR ''-'' \<notin> set t \<and>
     (case dropWhile isspace t of
        [] \<Rightarrow> True
      | c # cs \<Rightarrow>
          if c = CHR ''+'' then (case cs of [] \<Rightarrow> True | d # _ \<Rightarrow> \<not> isdigit d)
          else \<not> isdigit c)"

text \<open>
  What the token loop appends to the result for one token, and the contributions of a
  list of tokens put together in order; a token without defined result ends the list.
\<close>

definition contribution :: "string \<Rightarrow> error + int list" where
  "contribution t = parse_token t []"

fun collect :: "(error + int list) list \<Rightarrow> error + int list" where
  "collect [] = Inr []"
| "collect (Inl err # cs) = Inl err"
| "collect (Inr xs # cs) = (case collect cs of Inl err \<Rightarrow> Inl err | Inr ys \<Rightarrow> Inr (xs @ ys))"

section \<open>Vocabulary of the statements about listeners and sessions\<close>

text \<open>A sample is accepted when its instance is alive and it carries valid data.\<close>

definition accepted :: "SampleInfo \<Rightarrow> bool" where
  "accepted info \<longleftrightarrow> instance_state info = ALIVE_INSTANCE_STATE \<and> valid_data info"

text \<open>
  The samples a drain loop takes from a queue when its loads of the stop flag, numbered
  from \<open>k\<close>, read the values \<open>g_stop k\<close>, \<open>g_stop (k + 1)\<close>, ...: those before the
  first load that reads a set flag.
\<close>

fun pulled :: "(nat \<Rightarrow> bool) \<Rightarrow> nat \<Rightarrow> 'a list \<Rightarrow> 'a list" where
  "pulled g_stop k [] = []"
| "pulled g_stop k (x # xs) = (if g_stop k then [] else x # pulled g_stop (Suc k) xs)"

text \<open>
  The console text of a run of accepted samples when the counter stands at \<open>n\<close>: one
  record per sample, numbered \<open>n + 1\<close>, \<open>n + 2\<close>, ..., each followed by a newline.
\<close>

fun records :: "string \<Rightarrow> ('s \<Rightarrow> string) \<Rightarrow> 64 word \<Rightarrow> 's list \<Rightarrow> string" where
  "records header body n [] = []"
| "records header body n (s # ss) =
     record_text header (n + 1) (body s) @ newline @ records header body (n + 1) ss"

definition header_of :: "record_kind \<Rightarrow> 's DataReader \<Rightarrow> Monitor \<Rightarrow> string" where
  "header_of kind =
     (case kind of
        CoreData \<Rightarrow> CoreData_header
      | Intelligence \<Rightarrow> Intelligence_header
      | Messaging \<Rightarrow> Messaging_header)"

text \<open>The accepted samples among those a callback takes from a reader.\<close>

definition accepted_samples :: "(nat \<Rightarrow> bool) \<Rightarrow> 's DataReader \<Rightarrow> 's list" where
  "accepted_samples g_stop reader =
     map fst (filter (\<lambda>x. accepted (snd x)) (pulled g_stop 0 (queue reader)))"

text \<open>The display label of a first-kind topic name.\<close>

definition label :: "string \<Rightarrow> string" where
  "label name = subtype (\<lparr>get_topicdescription = Some name, queue = []\<rparr> :: unit DataReader)"

text \<open>
  The calls and the sessions that the requested domains produce, each domain taken on its
  own.
\<close>

definition domain_calls :: "DataReaderQos \<Rightarrow> (int \<times> bus_replies) list \<Rightarrow> bus_call list" where
  "domain_calls qos_default ds =
     concat (map (\<lambda>(domain_id, bus). fst (setup_domain qos_default domain_id bus)) ds)"

definition domain_sessions :: "DataReaderQos \<Rightarrow> (int \<times> bus_replies) list \<Rightarrow> DomainContext list" where
  "domain_sessions qos_default ds =
     List.map_filter (\<lambda>(domain_id, bus). snd (setup_domain qos_default domain_id bus)) ds"

text \<open>The reader QoS of every \<^verbatim>\<open>create_datareader\<close> call in a list of calls.\<close>

fun reader_qos_of :: "bus_call list \<Rightarrow> DataReaderQos list" where
  "reader_qos_of [] = []"
| "reader_qos_of (Create_datareader sub topic rqos kind # calls) = rqos # reader_qos_of calls"
| "reader_qos_of (c # calls) = reader_qos_of calls"

text \<open>
  A middleware that creates every entity it is asked for, with handles derived from
  \<open>h\<close>, and whose subscribers hand out the library default as their default reader
  QoS.
\<close>

definition working_bus :: "handle \<Rightarrow> bus_replies" where
  "working_bus h =
     \<lparr>create_participant = Some h, create_subscriber = Some (h + 1),
      get_default_datareader_qos = DATAREADER_QOS_DEFAULT,
      create_topic = (\<lambda>name. Some (h + length name)),
      create_datareader = (\<lambda>topic. Some (100 + topic))\<rparr>"

section \<open>Lemmas about the parser\<close>

declare parse_loop.simps [simp del] range_loop.simps [simp del] drain.simps [simp del]

lemma getline_comma:
  "CHR '','' \<notin> set t \<Longrightarrow> getline (t @ CHR '','' # rest) (CHR '','') = Some (t, rest)"
  by (cases t) (auto simp: takeWhile_append dropWhile_append)

lemma takeWhile_all: "c \<notin> set t \<Longrightarrow> takeWhile (\<lambda>x. x \<noteq> c) t = t"
  by (induction t) auto

lemma dropWhile_all: "c \<notin> set t \<Longrightarrow> dropWhile (\<lambda>x. x \<noteq> c) t = []"
  by (induction t) auto

lemma getline_last:
  "CHR '','' \<notin> set t \<Longrightarrow> t \<noteq> [] \<Longrightarrow> getline t (CHR '','') = Some (t, [])"
  using takeWhile_all[of "CHR '',''" t] dropWhile_all[of "CHR '',''" t]
  by (cases t) auto

lemma parse_loop_Nil: "parse_loop [] result = Inr result"
  by (simp add: parse_loop.simps)

lemma parse_token_Nil: "parse_token [] result = Inr result"
  by (simp add: parse_token_def)

lemma parse_loop_join:
  "\<forall>t \<in> set ts. CHR '','' \<notin> set t \<Longrightarrow> parse_loop (join_commas ts) result = parse_tokens ts result"
proof (induction ts arbitrary: result rule: join_commas.induct)
  case 1
  show ?case by (simp add: parse_loop_Nil)
next
  case (2 t)
  show ?case
  proof (cases "t = []")
    case True
    then show ?thesis by (simp add: parse_loop_Nil parse_token_Nil)
  next
    case False
    with 2 have "getline t (CHR '','') = Some (t, [])" by (simp add: getline_last)
    then show ?thesis
      by (subst parse_loop.simps) (simp add: parse_loop_Nil split: sum.splits)
  qed
next
  case (3 t u ts)
  then have g: "getline (join_commas (t # u # ts)) (CHR '','') = Some (t, join_commas (u # ts))"
    by (simp add: getline_comma)
  have "parse_loop (join_commas (t # u # ts)) result =
     (case parse_token t result of Inl err \<Rightarrow> Inl err | Inr r \<Rightarrow> parse_loop (join_commas (u # ts)) r)"
    by (subst parse_loop.simps) (simp only: g option.case prod.case)
  also have "\<dots> = parse_tokens (t # u # ts) result"
    using 3 by (simp split: sum.splits)
  finally show ?case .
qed

lemma range_loop_upto:
  "e < INT_MAX \<Longrightarrow> range_loop d e result = Inr (result @ [d..e])"
proof (induction d e result rule: range_loop.induct)
  case (1 d e result)
  show ?case
  proof (cases "d \<le> e")
    case True
    with 1 have "d \<noteq> INT_MAX" by simp
    with True 1 show ?thesis
      by (subst range_loop.simps) (simp add: upto_rec1 [of d e])
  next
    case False
    then show ?thesis by (subst range_loop.simps) simp
  qed
qed

lemma decimal_rev_append:
  "decimal_rev (xs @ ys) = decimal_rev xs + 10 ^ length xs * decimal_rev ys"
  by (induction xs) (auto simp: algebra_simps)

lemma decimal_Cons: "decimal (c # cs) = digit_value c * 10 ^ length cs + decimal cs"
  by (simp add: decimal_def decimal_rev_append)

lemma atoi_digits_decimal:
  "list_all isdigit ds \<Longrightarrow> atoi_digits acc ds = acc * 10 ^ length ds + decimal ds"
proof (induction ds arbitrary: acc)
  case Nil
  show ?case by (simp add: decimal_def)
next
  case (Cons c cs)
  then show ?case by (simp add: decimal_Cons algebra_simps)
qed

lemma digit_value_nonneg: "isdigit c \<Longrightarrow> 0 \<le> digit_value c"
  by (simp add: isdigit_def digit_value_def)

lemma decimal_Nil: "decimal [] = 0"
  by (simp add: decimal_def)

lemma decimal_nonneg: "list_all isdigit ds \<Longrightarrow> 0 \<le> decimal ds"
  by (induction ds) (simp_all add: decimal_Cons decimal_Nil digit_value_nonneg)

lemma isdigit_not_space: "isdigit c \<Longrightarrow> \<not> isspace c"
  by (auto simp: isdigit_def isspace_def)

lemma isdigit_not_sign: "isdigit c \<Longrightarrow> c \<noteq> CHR ''-'' \<and> c \<noteq> CHR ''+'' \<and> c \<noteq> CHR '',''"
  by (auto simp: isdigit_def)

lemma atoi_number:
  assumes "is_number ds"
  shows "atoi ds = (if decimal ds \<le> INT_MAX then Inr (decimal ds) else Inl Undefined_Behaviour)"
proof -
  from assms obtain c cs where ds: "ds = c # cs" and c: "isdigit c" and all: "list_all isdigit ds"
    by (cases ds) (auto simp: is_number_def)
  have "0 \<le> decimal ds" using all by (rule decimal_nonneg)
  moreover have "atoi_digits 0 ds = decimal ds" using all by (simp add: atoi_digits_decimal)
  ultimately show ?thesis
    using c isdigit_not_space [OF c] isdigit_not_sign [OF c]
    by (simp add: atoi_def ds INT_MIN_def Let_def)
qed

lemma find_char_absent: "ch \<notin> set s \<Longrightarrow> find_char s ch = None"
  by (induction s) auto

lemma find_char_first: "ch \<notin> set a \<Longrightarrow> find_char (a @ ch # b) ch = Some (length a)"
  by (induction a) auto

lemma number_no_dash: "list_all isdigit ds \<Longrightarrow> CHR ''-'' \<notin> set ds"
  using isdigit_not_sign by (auto simp: list_all_iff)

lemma number_no_comma: "list_all isdigit ds \<Longrightarrow> CHR '','' \<notin> set ds"
  using isdigit_not_sign by (auto simp: list_all_iff)

lemma parse_token_single:
  assumes "is_number a" and "decimal a \<le> INT_MAX"
  shows "parse_token a result = Inr (result @ [decimal a])"
proof -
  from assms have "CHR ''-'' \<notin> set a"
    by (simp add: is_number_def number_no_dash)
  then have "find_char a (CHR ''-'') = None"
    by (rule find_char_absent)
  moreover from assms have "a \<noteq> []"
    by (simp add: is_number_def)
  ultimately show ?thesis using assms by (simp add: parse_token_def atoi_number)
qed

lemma parse_token_range:
  assumes "is_number a" and "is_number b" and "decimal a < INT_MAX" and "decimal b < INT_MAX"
  shows "parse_token (a @ ''-'' @ b) result =
           Inr (result @ [min (decimal a) (decimal b) .. max (decimal a) (decimal b)])"
proof -
  have ne: "a \<noteq> []" "b \<noteq> []" using assms by (auto simp: is_number_def)
  have "CHR ''-'' \<notin> set a" using assms by (simp add: is_number_def number_no_dash)
  then have f: "find_char (a @ ''-'' @ b) (CHR ''-'') = Some (length a)"
    using find_char_first [of "CHR ''-''" a b] by simp
  have s: "substr_count (a @ ''-'' @ b) 0 (length a) = a" "substr (a @ ''-'' @ b) (Suc (length a)) = b"
    by (simp_all add: substr_count_def substr_def)
  have at: "atoi a = Inr (decimal a)" "atoi b = Inr (decimal b)"
    using assms by (simp_all add: atoi_number)
  have "parse_token (a @ ''-'' @ b) result =
          (if decimal b < decimal a then range_loop (decimal b) (decimal a) result
           else range_loop (decimal a) (decimal b) result)"
    unfolding parse_token_def f using ne by (simp add: s at Let_def del: append.simps)
  then show ?thesis using assms by (auto simp: range_loop_upto min_def max_def)
qed

lemma parse_token_valid:
  "valid_token tk \<Longrightarrow> fits_int tk \<Longrightarrow> parse_token (token_text tk) result = Inr (result @ token_domains tk)"
  by (cases tk) (simp_all add: parse_token_single parse_token_range del: append.simps)

lemma parse_tokens_valid:
  "\<forall>tk \<in> set tks. valid_token tk \<and> fits_int tk \<Longrightarrow>
     parse_tokens (map token_text tks) result = Inr (result @ concat (map token_domains tks))"
  by (induction tks arbitrary: result) (simp_all add: parse_token_valid)

lemma token_text_no_comma: "valid_token tk \<Longrightarrow> CHR '','' \<notin> set (token_text tk)"
  by (cases tk) (auto simp: is_number_def dest: number_no_comma)

lemma atoi_unnumbered:
  assumes "unnumbered t"
  shows "atoi t = Inr 0"
proof (cases "dropWhile isspace t")
  case Nil
  show ?thesis unfolding atoi_def Nil by (simp add: INT_MIN_def INT_MAX_def)
next
  case (Cons c cs)
  have "c \<in> set t"
    using set_dropWhileD [of c isspace t] Cons by simp
  with assms have nd: "c \<noteq> CHR ''-''"
    by (auto simp: unnumbered_def)
  show ?thesis
  proof (cases "c = CHR ''+''")
    case True
    with assms Cons have "atoi_digits 0 cs = 0"
      by (cases cs) (auto simp: unnumbered_def)
    with True show ?thesis
      unfolding atoi_def Cons by (simp add: INT_MIN_def INT_MAX_def)
  next
    case False
    with assms Cons have "\<not> isdigit c"
      by (simp add: unnumbered_def)
    with False nd show ?thesis
      unfolding atoi_def Cons by (simp add: INT_MIN_def INT_MAX_def)
  qed
qed

lemma parse_token_unnumbered:
  assumes "t \<noteq> []" and "unnumbered t"
  shows "parse_token t result = Inr (result @ [0])"
proof -
  from assms have "find_char t (CHR ''-'') = None"
    by (simp add: unnumbered_def find_char_absent)
  with assms show ?thesis
    by (simp add: parse_token_def atoi_unnumbered)
qed

lemma range_loop_append:
  "range_loop d e (r @ s) =
     (case range_loop d e s of Inl err \<Rightarrow> Inl err | Inr xs \<Rightarrow> Inr (r @ xs))"
proof (induction d e s rule: range_loop.induct)
  case (1 d e s)
  show ?case
  proof (cases "d \<le> e \<and> d \<noteq> INT_MAX")
    case True
    then have "range_loop d e (r @ s) = range_loop (d + 1) e (r @ s @ [d])"
      by (subst range_loop.simps) simp
    also have "\<dots> = (case range_loop (d + 1) e (s @ [d]) of Inl err \<Rightarrow> Inl err | Inr xs \<Rightarrow> Inr (r @ xs))"
      using True 1 by simp
    also have "range_loop (d + 1) e (s @ [d]) = range_loop d e s"
      using True by (subst (2) range_loop.simps) simp
    finally show ?thesis .
  next
    case False
    then show ?thesis
      by (subst range_loop.simps, subst (2) range_loop.simps) auto
  qed
qed

lemma parse_token_contribution:
  "parse_token t r = (case contribution t of Inl err \<Rightarrow> Inl err | Inr xs \<Rightarrow> Inr (r @ xs))"
  using range_loop_append [of _ _ r "[]"]
  by (simp add: contribution_def parse_token_def Let_def split: option.splits sum.splits)

lemma parse_tokens_collect:
  "parse_tokens ts r =
     (case collect (map contribution ts) of Inl err \<Rightarrow> Inl err | Inr xs \<Rightarrow> Inr (r @ xs))"
proof (induction ts arbitrary: r)
  case Nil
  show ?case by simp
next
  case (Cons t ts)
  show ?case
    by (cases "contribution t")
      (simp_all add: parse_token_contribution [of t r] Cons.IH split: sum.splits)
qed

lemma parse_collect:
  assumes "\<forall>t \<in> set ts. CHR '','' \<notin> set t"
  shows "parse_domains_from_input (join_commas ts) = collect (map contribution ts)"
  using assms
  by (simp add: parse_domains_from_input_def parse_loop_join parse_tokens_collect split: sum.splits)

lemma contribution_empty: "contribution [] = Inr []"
  by (simp add: contribution_def parse_token_Nil)

lemma contribution_unnumbered: "t \<noteq> [] \<and> unnumbered t \<Longrightarrow> contribution t = Inr [0]"
  by (simp add: contribution_def parse_token_unnumbered)

section \<open>Lemmas about the drain loop\<close>

lemma handle_sample_accepted:
  "accepted info \<Longrightarrow>
     handle_sample header body L sample info out =
       (L\<lparr>m_samples := m_samples L + 1\<rparr>,
        out @ record_text header (m_samples L + 1) (body sample) @ newline)"
  by (simp add: handle_sample_def accepted_def Let_def)

lemma handle_sample_discarded:
  "\<not> accepted info \<Longrightarrow> handle_sample header body L sample info out = (L, out)"
  by (auto simp: handle_sample_def accepted_def)

lemma drain_closed_form:
  assumes inv: "\<And>r q L n. header (r\<lparr>queue := q\<rparr>) (L\<lparr>m_samples := n\<rparr>) = header r L"
  shows "drain header body g_stop k L reader out =
     (L\<lparr>m_samples := m_samples L
          + of_nat (length (filter (\<lambda>x. accepted (snd x)) (pulled g_stop k (queue reader))))\<rparr>,
      reader\<lparr>queue := drop (length (pulled g_stop k (queue reader))) (queue reader)\<rparr>,
      out @ records (header reader L) body (m_samples L)
              (map fst (filter (\<lambda>x. accepted (snd x)) (pulled g_stop k (queue reader)))))"
proof -
  have "queue reader = q \<Longrightarrow> ?thesis" for q
proof (induction q arbitrary: k L reader out)
  case Nil
  then have "queue reader = []" by simp
  then show ?case
    by (subst drain.simps) (simp add: take_next_sample_def)
next
  case (Cons x xs)
  then have q: "queue reader = x # xs" by simp
  obtain sample info where x: "x = (sample, info)" by (cases x)
  show ?case
  proof (cases "g_stop k")
    case True
    then show ?thesis by (subst drain.simps) (simp add: q)
  next
    case False
    let ?r = "reader\<lparr>queue := xs\<rparr>"
    have h: "header ?r L = header reader L"
      using inv [where r = reader and q = xs and L = L and n = "m_samples L"] by simp
    have ih: "\<And>k L out. drain header body g_stop k L ?r out =
     (L\<lparr>m_samples := m_samples L
          + of_nat (length (filter (\<lambda>x. accepted (snd x)) (pulled g_stop k xs)))\<rparr>,
      ?r\<lparr>queue := drop (length (pulled g_stop k xs)) xs\<rparr>,
      out @ records (header ?r L) body (m_samples L)
              (map fst (filter (\<lambda>x. accepted (snd x)) (pulled g_stop k xs))))"
      using Cons(1) [of ?r] by simp
    show ?thesis
    proof (cases "accepted info")
      case True
      have "drain header body g_stop k L reader out =
              drain header body g_stop (k + 1) (L\<lparr>m_samples := m_samples L + 1\<rparr>) ?r
                (out @ record_text (header reader L) (m_samples L + 1) (body sample) @ newline)"
        using False True
        by (subst drain.simps) (simp add: take_next_sample_def q x h handle_sample_accepted)
      also have "\<dots> = (L\<lparr>m_samples := m_samples L + 1
          + of_nat (length (filter (\<lambda>x. accepted (snd x)) (pulled g_stop (Suc k) xs)))\<rparr>,
      reader\<lparr>queue := drop (length (pulled g_stop (Suc k) xs)) xs\<rparr>,
      (out @ record_text (header reader L) (m_samples L + 1) (body sample) @ newline)
        @ records (header reader L) body (m_samples L + 1)
              (map fst (filter (\<lambda>x. accepted (snd x)) (pulled g_stop (Suc k) xs))))"
        using inv [where r = reader and q = xs and L = L and n = "m_samples L + 1"] h by (simp add: ih)
      finally show ?thesis using False True by (simp add: q x add.assoc)
    next
      case nacc: False
      have "drain header body g_stop k L reader out = drain header body g_stop (k + 1) L ?r out"
        using False nacc
        by (subst drain.simps) (simp add: take_next_sample_def q x handle_sample_discarded)
      then show ?thesis using False nacc by (simp add: ih q x h)
    qed
  qed
qed
  then show ?thesis by simp
qed

lemma header_of_invariant:
  "header_of kind (r\<lparr>queue := q\<rparr>) (L\<lparr>m_samples := n\<rparr>) = header_of kind r L"
  by (cases kind)
    (simp_all add: header_of_def CoreData_header_def Intelligence_header_def
      Messaging_header_def subtype_def)

lemma on_data_available_drain:
  "on_data_available kind body g_stop L reader out =
     drain (header_of kind) body g_stop 0 L reader out"
  by (cases kind)
    (simp_all add: on_data_available_def header_of_def CoreDataMonitor_on_data_available_def
      IntelligenceMonitor_on_data_available_def MessagingMonitor_on_data_available_def)

lemma on_data_available_closed_form:
  "on_data_available kind body g_stop L reader out =
     (L\<lparr>m_samples := m_samples L + of_nat (length (accepted_samples g_stop reader))\<rparr>,
      reader\<lparr>queue := drop (length (pulled g_stop 0 (queue reader))) (queue reader)\<rparr>,
      out @ records (header_of kind reader L) body (m_samples L) (accepted_samples g_stop reader))"
  unfolding on_data_available_drain accepted_samples_def
  by (subst drain_closed_form) (simp_all add: header_of_invariant)

lemma pulled_take:
  "n \<le> length q \<Longrightarrow> (\<forall>j<n. \<not> g_stop (k + j)) \<Longrightarrow> g_stop (k + n) \<or> n = length q \<Longrightarrow>
     pulled g_stop k q = take n q"
proof (induction q arbitrary: k n)
  case Nil
  then show ?case by simp
next
  case (Cons x xs)
  show ?case
  proof (cases n)
    case 0
    with Cons.prems show ?thesis by simp
  next
    case (Suc m)
    with Cons.prems have "\<not> g_stop k" by force
    moreover have "pulled g_stop (Suc k) xs = take m xs"
    proof (rule Cons.IH)
      show "m \<le> length xs" using Cons.prems Suc by simp
      show "\<forall>j<m. \<not> g_stop (Suc k + j)"
      proof (intro allI impI)
        fix j assume "j < m"
        then have "Suc j < n" using Suc by simp
        with Cons.prems(2) have "\<not> g_stop (k + Suc j)" by blast
        then show "\<not> g_stop (Suc k + j)" by simp
      qed
      show "g_stop (Suc k + m) \<or> m = length xs" using Cons.prems(3) Suc by simp
    qed
    ultimately show ?thesis using Suc by simp
  qed
qed


lemma handle_sample_not_alive_or_invalid:
  "instance_state info \<noteq> ALIVE_INSTANCE_STATE \<or> \<not> valid_data info \<Longrightarrow>
     handle_sample header body L sample info out = (L, out)"
  by (rule handle_sample_discarded) (auto simp: accepted_def)




lemma drain_stop_observed:
  "g_stop k \<Longrightarrow> drain header body g_stop k L reader out = (L, reader, out)"
  by (subst drain.simps) simp

lemma on_data_available_first_stop:
  assumes "n \<le> length (queue reader)" and "\<forall>j<n. \<not> g_stop j"
    and "g_stop n \<or> n = length (queue reader)"
  shows "on_data_available kind body g_stop L reader out =
          (L\<lparr>m_samples := m_samples L
               + of_nat (length (filter (\<lambda>x. accepted (snd x)) (take n (queue reader))))\<rparr>,
           reader\<lparr>queue := drop n (queue reader)\<rparr>,
           out @ records (header_of kind reader L) body (m_samples L)
                   (map fst (filter (\<lambda>x. accepted (snd x)) (take n (queue reader)))))"
proof -
  have "pulled g_stop 0 (queue reader) = take n (queue reader)"
    using pulled_take [of n "queue reader" g_stop 0] assms by simp
  with assms(1) show ?thesis
    by (simp add: on_data_available_closed_form accepted_samples_def min_def)
qed

section \<open>Lemmas about the topic classifier and the setup loop\<close>

lemma label_range:
  "label name \<in> {''coredata'', ''coredata2'', ''coredata3'', ''coredata4''}"
  by (simp add: label_def subtype_def)

lemma four_in_three:
  assumes "f a \<in> {p, q, r}" "f b \<in> {p, q, r}" "f c \<in> {p, q, r}" "f d \<in> {p, q, r}"
  shows "\<not> distinct [f a, f b, f c, f d]"
  using assms by auto

lemma setup_loop_closed_form:
  "setup_loop q ds (contexts, calls) =
     (contexts @ domain_sessions q ds, calls @ domain_calls q ds)"
proof (induction ds arbitrary: contexts calls)
  case Nil
  show ?case by (simp add: domain_sessions_def domain_calls_def List.map_filter_simps)
next
  case (Cons x ds)
  obtain d bus where x: "x = (d, bus)" by (cases x)
  obtain cs s where r: "setup_domain q d bus = (cs, s)" by (cases "setup_domain q d bus")
  show ?case
    by (cases s)
      (simp_all add: x r Cons.IH domain_sessions_def domain_calls_def List.map_filter_simps)
qed

lemma domain_calls_append:
  "domain_calls q (xs @ ys) = domain_calls q xs @ domain_calls q ys"
  by (simp add: domain_calls_def)

lemma domain_sessions_append:
  "domain_sessions q (xs @ ys) = domain_sessions q xs @ domain_sessions q ys"
  by (simp add: domain_sessions_def List.map_filter_def)

lemma setup_domain_no_participant:
  "create_participant bus = None \<Longrightarrow>
     setup_domain q d bus =
       ([Create_participant d,
         Cerr (''Failed to create DomainParticipant for domain '' @ show_int d)], None)"
  by (simp add: setup_domain_def)

lemma setup_domain_no_subscriber:
  "create_participant bus = Some p \<and> create_subscriber bus = None \<Longrightarrow>
     setup_domain q d bus =
       ([Create_participant d,
         Cout (''Monitor: DomainParticipant created for domain '' @ show_int d),
         Create_subscriber p,
         Cerr (''Failed to create Subscriber for domain '' @ show_int d),
         Delete_participant p], None)"
  by (simp add: setup_domain_def)

lemma setup_loop_skips:
  assumes "snd (setup_domain q d bus) = None"
  shows "setup_loop q (before @ (d, bus) # after) (contexts, calls) =
           (fst (setup_loop q (before @ after) (contexts, calls)),
            calls @ domain_calls q before @ fst (setup_domain q d bus) @ domain_calls q after)"
proof -
  have "domain_sessions q [(d, bus)] = []"
    using assms by (simp add: domain_sessions_def List.map_filter_simps)
  moreover have "domain_calls q [(d, bus)] = fst (setup_domain q d bus)"
    by (simp add: domain_calls_def)
  moreover have "before @ (d, bus) # after = before @ [(d, bus)] @ after"
    by simp
  ultimately show ?thesis
    by (simp only: setup_loop_closed_form domain_calls_append domain_sessions_append
        fst_conv append_Nil append_Nil2 append_assoc)
qed

lemma working_session:
  "snd (setup_domain q d (working_bus h)) \<noteq> None \<and>
   map_option ctx_id (snd (setup_domain q d (working_bus h))) = Some d"
  by (simp add: setup_domain_def working_bus_def Let_def empty_context_def reader_for_def
      split: prod.splits)

lemma reader_qos_of_append: "reader_qos_of (xs @ ys) = reader_qos_of xs @ reader_qos_of ys"
  by (induction xs rule: reader_qos_of.induct) simp_all

lemma reader_for_qos:
  "list_all (\<lambda>rq. rq = rqos) (reader_qos_of (snd (reader_for bus sub rqos kind topic)))"
  by (cases topic) (simp_all add: reader_for_def)

lemma setup_domain_reader_qos:
  "list_all
     (\<lambda>rq. rq = (get_default_datareader_qos bus)
               \<lparr>reliability := RELIABLE_RELIABILITY_QOS,
                durability := TRANSIENT_LOCAL_DURABILITY_QOS,
                history := KEEP_ALL_HISTORY_QOS\<rparr>)
     (reader_qos_of (fst (setup_domain q d bus)))"
proof -
  have b: "build_reader_qos q (get_default_datareader_qos bus) =
      (get_default_datareader_qos bus)
               \<lparr>reliability := RELIABLE_RELIABILITY_QOS,
                durability := TRANSIENT_LOCAL_DURABILITY_QOS,
                history := KEEP_ALL_HISTORY_QOS\<rparr>"
    by (simp add: build_reader_qos_def)
  show ?thesis
    using reader_for_qos [of "build_reader_qos q (get_default_datareader_qos bus)" bus]
    by (simp add: setup_domain_def Let_def reader_qos_of_append b
        split: option.splits prod.splits) (metis snd_conv)
qed

section \<open>Reader configuration\<close>

text \<open>
  Claim C1 says that the QoS passed to every \<^verbatim>\<open>create_datareader\<close> call asks for
  reliable delivery, transient-local durability, keep-all history and payload encryption.
  The first three hold. The property \<^verbatim>\<open>rtps.payload_protection=ENCRYPT\<close> does not:
  \<^verbatim>\<open>main\<close> appends it and then calls \<^verbatim>\<open>get_default_datareader_qos(rqos)\<close>, which
  replaces the whole of \<open>rqos\<close>. For every domain and every middleware, each reader is
  created with the subscriber's default reader QoS, changed in reliability, durability
  and history only; with the library default, the six readers of a domain get a QoS
  without any property.
\<close>

theorem reader_qos_loses_payload_protection:
  "(\<forall>q d bus.
      list_all
        (\<lambda>rq. rq = (get_default_datareader_qos bus)
                  \<lparr>reliability := RELIABLE_RELIABILITY_QOS,
                   durability := TRANSIENT_LOCAL_DURABILITY_QOS,
                   history := KEEP_ALL_HISTORY_QOS\<rparr>)
        (reader_qos_of (fst (setup_domain q d bus)))) \<and>
   reader_qos_of (fst (setup_domain DATAREADER_QOS_DEFAULT 0 (working_bus 10))) =
     replicate 6
       \<lparr>reliability = RELIABLE_RELIABILITY_QOS, durability = TRANSIENT_LOCAL_DURABILITY_QOS,
        history = KEEP_ALL_HISTORY_QOS, properties = []\<rparr>"
proof -
  have "reader_qos_of (fst (setup_domain DATAREADER_QOS_DEFAULT 0 (working_bus 10))) =
     replicate 6
       \<lparr>reliability = RELIABLE_RELIABILITY_QOS, durability = TRANSIENT_LOCAL_DURABILITY_QOS,
        history = KEEP_ALL_HISTORY_QOS, properties = []\<rparr>"
    by (simp add: setup_domain_def working_bus_def Let_def reader_for_def build_reader_qos_def
        DATAREADER_QOS_DEFAULT_def empty_context_def numeral_eq_Suc)
  then show ?thesis
    by (simp only: setup_domain_reader_qos simp_thms)
qed

section \<open>The domain range parser\<close>

text \<open>
  Claim C2, as far as the type \<^verbatim>\<open>int\<close> carries it. For every input made of
  comma-separated valid tokens (single non-negative integers and ranges \<open>a-b\<close>, in
  decimal digits) whose numbers fit \<^verbatim>\<open>int\<close> (a single integer at most \<open>INT_MAX\<close>, range
  endpoints below \<open>INT_MAX\<close>), the parser returns the tokens' domains in token order:
  the integer itself for a single token, the full ascending inclusive sequence from the
  smaller to the larger endpoint for a range, whichever endpoint is written first. The
  input \<^verbatim>\<open>5-3\<close> yields \<open>[3, 4, 5]\<close>.
\<close>

theorem parse_domains_valid_tokens:
  assumes "\<forall>tk \<in> set tks. valid_token tk \<and> fits_int tk"
  shows "parse_domains_from_input (join_commas (map token_text tks)) =
           Inr (concat (map token_domains tks))"
proof -
  have "\<forall>t \<in> set (map token_text tks). CHR '','' \<notin> set t"
    using assms by (auto dest: token_text_no_comma)
  then have "parse_domains_from_input (join_commas (map token_text tks)) =
      parse_tokens (map token_text tks) []"
    by (simp add: parse_domains_from_input_def parse_loop_join)
  also have "\<dots> = Inr ([] @ concat (map token_domains tks))"
    using assms by (rule parse_tokens_valid)
  finally show ?thesis by simp
qed

text \<open>
  The theorem at the input \<^verbatim>\<open>1,5-3,3-4\<close>: token order is kept, and the inverted range
  \<^verbatim>\<open>5-3\<close> contributes \<open>3, 4, 5\<close>.
\<close>

theorem parse_domains_valid_tokens_witness:
  "valid_token (Single ''1'') \<and> fits_int (Single ''1'') \<and>
   valid_token (Range ''5'' ''3'') \<and> fits_int (Range ''5'' ''3'') \<and>
   valid_token (Range ''3'' ''4'') \<and> fits_int (Range ''3'' ''4'') \<and>
   parse_domains_from_input ''1,5-3,3-4'' = Inr [1, 3, 4, 5, 3, 4]"
proof -
  have d: "decimal ''1'' = 1" "decimal ''3'' = 3" "decimal ''4'' = 4" "decimal ''5'' = 5"
    by (simp_all add: decimal_def digit_value_def)
  have v: "valid_token (Single ''1'')" "valid_token (Range ''5'' ''3'')" "valid_token (Range ''3'' ''4'')"
    by (simp_all add: is_number_def isdigit_def)
  have f: "fits_int (Single ''1'')" "fits_int (Range ''5'' ''3'')" "fits_int (Range ''3'' ''4'')"
    by (simp_all add: d INT_MAX_def)
  have u: "[3 .. 5] = [3, 4, 5::int]" "[3 .. 4] = [3, 4::int]"
    by (simp_all add: upto_rec1)
  from parse_domains_valid_tokens [of "[Single ''1'', Range ''5'' ''3'', Range ''3'' ''4'']"] v f
  have "parse_domains_from_input ''1,5-3,3-4'' = Inr [1, 3, 4, 5, 3, 4]"
    by (simp add: d u)
  with v f show ?thesis by simp
qed

text \<open>
  Claim C2 as the specification words it, for every non-negative integer, fails where
  the type \<^verbatim>\<open>int\<close> ends. The token \<^verbatim>\<open>2147483648\<close> is a valid single integer, and
  \<^verbatim>\<open>atoi\<close> has no defined result for it, so the parser does not return the sequence
  \<open>[2147483648]\<close>. The token \<^verbatim>\<open>2147483646-2147483647\<close> is a valid range, and after
  pushing its upper endpoint the loop increments \<open>INT_MAX\<close>, so the parser does not
  return the two endpoints.
\<close>

theorem parse_domains_int_overflow_counterexample:
  "valid_token (Single ''2147483648'') \<and>
   parse_domains_from_input (join_commas (map token_text [Single ''2147483648''])) \<noteq>
     Inr (concat (map token_domains [Single ''2147483648''])) \<and>
   valid_token (Range ''2147483646'' ''2147483647'') \<and>
   parse_domains_from_input (join_commas (map token_text [Range ''2147483646'' ''2147483647''])) \<noteq>
     Inr (concat (map token_domains [Range ''2147483646'' ''2147483647'']))"
  by code_simp

text \<open>
  Claim C8, amended. For every input, the output is what its tokens contribute, put
  together in token order. An empty token (between consecutive commas, leading or
  trailing) contributes nothing. A non-empty token without a hyphen in which \<^verbatim>\<open>atoi\<close>
  finds no digit to read (after leading white space and an optional plus sign the text
  does not start with a digit) parses to zero and contributes exactly the domain
  identifier 0.
\<close>

theorem parse_domains_empty_and_unnumbered:
  "(\<forall>ts. (\<forall>t \<in> set ts. CHR '','' \<notin> set t) \<longrightarrow>
      parse_domains_from_input (join_commas ts) = collect (map contribution ts)) \<and>
   contribution [] = Inr [] \<and>
   (\<forall>t. t \<noteq> [] \<and> unnumbered t \<longrightarrow> contribution t = Inr [0])"
  apply (intro conjI allI impI)
    apply (erule parse_collect)
   apply (rule contribution_empty)
  apply (erule contribution_unnumbered)
  done

text \<open>
  The theorem at the input \<^verbatim>\<open>,7,abc,,8, +x,\<close>: the three empty tokens contribute
  nothing and the tokens \<^verbatim>\<open>abc\<close> and \<^verbatim>\<open> +x\<close> contribute a zero each, between the
  domains of the numeric tokens.
\<close>

theorem parse_domains_empty_and_unnumbered_witness:
  "unnumbered ''abc'' \<and> unnumbered '' +x'' \<and>
   parse_domains_from_input '',7,abc,,8, +x,'' = Inr [7, 0, 8, 0]"
proof -
  note t = parse_domains_empty_and_unnumbered
  have u: "unnumbered ''abc''" "unnumbered '' +x''"
    by (simp_all add: unnumbered_def isspace_def isdigit_def)
  have c0: "contribution [] = Inr []"
    by (rule t [THEN conjunct2, THEN conjunct1])
  have c1: "contribution ''abc'' = Inr [0]" "contribution '' +x'' = Inr [0]"
    by (rule t [THEN conjunct2, THEN conjunct2, rule_format]; simp add: u)+
  have c2: "contribution ''7'' = Inr [7]" "contribution ''8'' = Inr [8]"
    by (simp_all add: contribution_def parse_token_def atoi_def isspace_def isdigit_def
        digit_value_def INT_MAX_def INT_MIN_def)
  have "parse_domains_from_input (join_commas [[], ''7'', ''abc'', [], ''8'', '' +x'', []]) =
        collect (map contribution [[], ''7'', ''abc'', [], ''8'', '' +x'', []])"
    by (rule t [THEN conjunct1, rule_format]) auto
  then have "parse_domains_from_input '',7,abc,,8, +x,'' = Inr [7, 0, 8, 0]"
    by (simp add: c0 c1 c2)
  with u show ?thesis by simp
qed

text \<open>
  Claim C8 as the specification words it, for every non-numeric token, fails: the token
  \<^verbatim>\<open>12abc\<close> is not a number and contributes 12 (\<^verbatim>\<open>atoi\<close> reads the leading digits),
  and the token \<^verbatim>\<open>x-\<close> is not a number and contributes nothing (a hyphen with an empty
  side).
\<close>

theorem parse_domains_non_numeric_counterexample:
  "parse_domains_from_input ''12abc'' = Inr [12] \<and> parse_domains_from_input ''x-'' = Inr []"
  by code_simp

text \<open>
  Claim C10. If a non-empty command-line argument is given and the parser returns the
  empty sequence for it, the program uses the default list \<open>0, 1, 2, 3, 4, 5\<close> and reads
  no environment variable, whatever the environment holds.
\<close>

theorem cli_argument_shadows_environment:
  "1 < length argv \<and> argv ! 1 \<noteq> [] \<and> parse_domains_from_input (argv ! 1) = Inr [] \<longrightarrow>
     resolve_domains argv getenv = Inr ([0, 1, 2, 3, 4, 5], [])"
  by (simp add: resolve_domains_def default_domains_def)

text \<open>
  The theorem at the arguments \<^verbatim>\<open>,\<close> and \<^verbatim>\<open>-3\<close>, for which the parser returns the
  empty sequence, in an environment that sets \<^verbatim>\<open>MONITOR_DOMAINS=7,8\<close>; without an
  argument the same environment is read and gives the domains 7 and 8.
\<close>

theorem cli_argument_shadows_environment_witness:
  "parse_domains_from_input '','' = Inr [] \<and>
   parse_domains_from_input ''-3'' = Inr [] \<and>
   resolve_domains [''monitor'', '',''] (\<lambda>name. Some ''7,8'') = Inr ([0, 1, 2, 3, 4, 5], []) \<and>
   resolve_domains [''monitor'', ''-3''] (\<lambda>name. Some ''7,8'') = Inr ([0, 1, 2, 3, 4, 5], []) \<and>
   resolve_domains [''monitor''] (\<lambda>name. Some ''7,8'') = Inr ([7, 8], [''MONITOR_DOMAINS''])"
proof -
  have p: "parse_domains_from_input '','' = Inr []" "parse_domains_from_input ''-3'' = Inr []"
    by code_simp+
  have e: "resolve_domains [''monitor''] (\<lambda>name. Some ''7,8'') = Inr ([7, 8], [''MONITOR_DOMAINS''])"
    by code_simp
  from cli_argument_shadows_environment [of "[''monitor'', '','']" "\<lambda>name. Some ''7,8''"] p
  have 1: "resolve_domains [''monitor'', '',''] (\<lambda>name. Some ''7,8'') = Inr ([0, 1, 2, 3, 4, 5], [])"
    by simp
  from cli_argument_shadows_environment [of "[''monitor'', ''-3'']" "\<lambda>name. Some ''7,8''"] p
  have 2: "resolve_domains [''monitor'', ''-3''] (\<lambda>name. Some ''7,8'') = Inr ([0, 1, 2, 3, 4, 5], [])"
    by simp
  from p e 1 2 show ?thesis by simp
qed

section \<open>The drain loops\<close>

text \<open>
  Claim C3. In the drain loop of each of the three listener classes, a sample that was
  taken and whose instance state is not alive, or whose valid-data flag is false, is
  discarded: the loop body leaves the listener (its counter) and the console stream as
  they were, so nothing is formatted or written for it. Over a whole callback, the
  counter and the console text are those of the accepted samples alone.
\<close>

theorem discarded_samples_never_reach_output:
  "(\<forall>header (body :: 's \<Rightarrow> string) L sample info out.
      instance_state info \<noteq> ALIVE_INSTANCE_STATE \<or> \<not> valid_data info \<longrightarrow>
        handle_sample header body L sample info out = (L, out)) \<and>
   (\<forall>kind (body :: 's \<Rightarrow> string) g_stop L reader out.
      (case on_data_available kind body g_stop L reader out of
         (L', reader', out') \<Rightarrow>
           L' = L\<lparr>m_samples := m_samples L + of_nat (length (accepted_samples g_stop reader))\<rparr> \<and>
           out' = out @ records (header_of kind reader L) body (m_samples L)
                          (accepted_samples g_stop reader)))"
  apply (intro conjI allI impI)
   apply (erule handle_sample_not_alive_or_invalid)
  apply (simp only: on_data_available_closed_form prod.case simp_thms)
  done

text \<open>
  The theorem on a disposed sample, on a sample without valid data, and on a callback
  that takes one of each followed by an accepted sample: one record is written, with
  sequence number 1.
\<close>

theorem discarded_samples_never_reach_output_witness:
  "handle_sample ''h'' (\<lambda>s. s) \<lparr>m_samples = 4, m_domain_id = 7\<rparr> ''x''
     \<lparr>instance_state = NOT_ALIVE_DISPOSED_INSTANCE_STATE, valid_data = True\<rparr> ''out''
     = (\<lparr>m_samples = 4, m_domain_id = 7\<rparr>, ''out'') \<and>
   handle_sample ''h'' (\<lambda>s. s) \<lparr>m_samples = 4, m_domain_id = 7\<rparr> ''x''
     \<lparr>instance_state = ALIVE_INSTANCE_STATE, valid_data = False\<rparr> ''out''
     = (\<lparr>m_samples = 4, m_domain_id = 7\<rparr>, ''out'') \<and>
   fst (on_data_available Intelligence (\<lambda>s. '' - {'' @ s @ ''}'') (\<lambda>k. False) (new_Monitor 7)
     \<lparr>get_topicdescription = Some ''IntelligenceTopic'',
      queue = [(''a'', \<lparr>instance_state = NOT_ALIVE_DISPOSED_INSTANCE_STATE, valid_data = True\<rparr>),
               (''b'', \<lparr>instance_state = ALIVE_INSTANCE_STATE, valid_data = False\<rparr>),
               (''c'', \<lparr>instance_state = ALIVE_INSTANCE_STATE, valid_data = True\<rparr>)]\<rparr> [])
     = \<lparr>m_samples = 1, m_domain_id = 7\<rparr> \<and>
   snd (snd (on_data_available Intelligence (\<lambda>s. '' - {'' @ s @ ''}'') (\<lambda>k. False) (new_Monitor 7)
     \<lparr>get_topicdescription = Some ''IntelligenceTopic'',
      queue = [(''a'', \<lparr>instance_state = NOT_ALIVE_DISPOSED_INSTANCE_STATE, valid_data = True\<rparr>),
               (''b'', \<lparr>instance_state = ALIVE_INSTANCE_STATE, valid_data = False\<rparr>),
               (''c'', \<lparr>instance_state = ALIVE_INSTANCE_STATE, valid_data = True\<rparr>)]\<rparr> []))
     = ''[domain=7] TOPIC: intelligence'' @ newline @ ''Sample '' @ [CHR 0x27] @ ''1'' @ [CHR 0x27]
         @ '' RECEIVED'' @ newline @ '' - {c}'' @ newline"
proof -
  let ?body = "\<lambda>s :: string. '' - {'' @ s @ ''}''"
  let ?g = "\<lambda>k :: nat. False"
  let ?r = "\<lparr>get_topicdescription = Some ''IntelligenceTopic'',
      queue = [(''a'', \<lparr>instance_state = NOT_ALIVE_DISPOSED_INSTANCE_STATE, valid_data = True\<rparr>),
               (''b'', \<lparr>instance_state = ALIVE_INSTANCE_STATE, valid_data = False\<rparr>),
               (''c'', \<lparr>instance_state = ALIVE_INSTANCE_STATE, valid_data = True\<rparr>)]\<rparr>"
  note step = discarded_samples_never_reach_output [THEN conjunct1, rule_format]
  note loop = discarded_samples_never_reach_output [THEN conjunct2, rule_format,
      where kind = Intelligence and body = ?body and g_stop = ?g and L = "new_Monitor 7"
        and reader = ?r and out = "[]"]
  have a: "accepted_samples ?g ?r = [''c'']"
    by (simp add: accepted_samples_def accepted_def)
  have h: "header_of Intelligence ?r \<lparr>m_samples = 0, m_domain_id = 7\<rparr>
      = ''[domain=7] TOPIC: intelligence'' @ newline"
    by (simp add: header_of_def Intelligence_header_def show_int_def)
  have 1: "handle_sample ''h'' (\<lambda>s. s) \<lparr>m_samples = 4, m_domain_id = 7\<rparr> ''x''
     \<lparr>instance_state = NOT_ALIVE_DISPOSED_INSTANCE_STATE, valid_data = True\<rparr> ''out''
     = (\<lparr>m_samples = 4, m_domain_id = 7\<rparr>, ''out'')"
    by (rule step) simp
  have 2: "handle_sample ''h'' (\<lambda>s. s) \<lparr>m_samples = 4, m_domain_id = 7\<rparr> ''x''
     \<lparr>instance_state = ALIVE_INSTANCE_STATE, valid_data = False\<rparr> ''out''
     = (\<lparr>m_samples = 4, m_domain_id = 7\<rparr>, ''out'')"
    by (rule step) simp
  from loop have 3: "fst (on_data_available Intelligence ?body ?g (new_Monitor 7) ?r [])
     = \<lparr>m_samples = 1, m_domain_id = 7\<rparr>"
    by (simp add: case_prod_beta a new_Monitor_def)
  from loop have 4: "snd (snd (on_data_available Intelligence ?body ?g (new_Monitor 7) ?r []))
     = ''[domain=7] TOPIC: intelligence'' @ newline @ ''Sample '' @ [CHR 0x27] @ ''1'' @ [CHR 0x27]
         @ '' RECEIVED'' @ newline @ '' - {c}'' @ newline"
    by (simp add: case_prod_beta a h record_text_def new_Monitor_def)
  from 1 2 3 4 show ?thesis by (intro conjI)
qed




text \<open>
  Claim C5. In the drain loop of each listener class: when a load of the stop flag
  reads it set, the loop ends without taking another sample, and the samples still
  buffered stay in the reader; in particular a callback that starts with the flag set
  takes nothing. If load number \<open>n\<close> is the first to read the flag set (and the reader
  held at least \<open>n\<close> samples), exactly the first \<open>n\<close> samples are taken. If no load
  reads the flag set, the loop ends when the reader has no sample left, after taking
  them all.
\<close>

theorem stop_flag_ends_draining:
  "(\<forall>kind (body :: 's \<Rightarrow> string) g_stop L reader out.
      g_stop 0 \<longrightarrow> on_data_available kind body g_stop L reader out = (L, reader, out)) \<and>
   (\<forall>header (body :: 's \<Rightarrow> string) g_stop k L reader out.
      g_stop k \<longrightarrow> drain header body g_stop k L reader out = (L, reader, out)) \<and>
   (\<forall>kind (body :: 's \<Rightarrow> string) g_stop L reader out n.
      n \<le> length (queue reader) \<and> (\<forall>j<n. \<not> g_stop j) \<and> (g_stop n \<or> n = length (queue reader)) \<longrightarrow>
        on_data_available kind body g_stop L reader out =
          (L\<lparr>m_samples := m_samples L
               + of_nat (length (filter (\<lambda>x. accepted (snd x)) (take n (queue reader))))\<rparr>,
           reader\<lparr>queue := drop n (queue reader)\<rparr>,
           out @ records (header_of kind reader L) body (m_samples L)
                   (map fst (filter (\<lambda>x. accepted (snd x)) (take n (queue reader))))))"
  apply (intro conjI allI impI)
    apply (simp only: on_data_available_drain drain_stop_observed)
   apply (erule drain_stop_observed)
  apply (elim conjE)
  apply (rule on_data_available_first_stop; assumption)
  done

text \<open>
  The theorem on a callback that starts with the flag set, on a loop whose sixth load
  reads the flag set, on a callback whose third load reads the flag set (two of three
  samples are printed, the third stays in the reader), and on a callback that never
  reads the flag set (the reader is left empty).
\<close>

theorem stop_flag_ends_draining_witness:
  "on_data_available Messaging (\<lambda>s. s) (\<lambda>k. True) (new_Monitor 7)
     \<lparr>get_topicdescription = Some ''MessagingTopic'',
      queue = [(''a'', \<lparr>instance_state = ALIVE_INSTANCE_STATE, valid_data = True\<rparr>)]\<rparr> ''out''
     = (new_Monitor 7,
        \<lparr>get_topicdescription = Some ''MessagingTopic'',
         queue = [(''a'', \<lparr>instance_state = ALIVE_INSTANCE_STATE, valid_data = True\<rparr>)]\<rparr>,
        ''out'') \<and>
   drain Messaging_header (\<lambda>s. s) (\<lambda>k. 5 \<le> k) 5 (new_Monitor 7)
     \<lparr>get_topicdescription = Some ''MessagingTopic'',
      queue = [(''a'', \<lparr>instance_state = ALIVE_INSTANCE_STATE, valid_data = True\<rparr>)]\<rparr> ''out''
     = (new_Monitor 7,
        \<lparr>get_topicdescription = Some ''MessagingTopic'',
         queue = [(''a'', \<lparr>instance_state = ALIVE_INSTANCE_STATE, valid_data = True\<rparr>)]\<rparr>,
        ''out'') \<and>
   on_data_available CoreData (\<lambda>s. s) (\<lambda>k. 2 \<le> k) (new_Monitor 7)
     \<lparr>get_topicdescription = Some ''CoreData2Topic'',
      queue = [(''a'', \<lparr>instance_state = ALIVE_INSTANCE_STATE, valid_data = True\<rparr>),
               (''b'', \<lparr>instance_state = ALIVE_INSTANCE_STATE, valid_data = True\<rparr>),
               (''c'', \<lparr>instance_state = ALIVE_INSTANCE_STATE, valid_data = True\<rparr>)]\<rparr> []
     = (\<lparr>m_samples = 2, m_domain_id = 7\<rparr>,
        \<lparr>get_topicdescription = Some ''CoreData2Topic'',
         queue = [(''c'', \<lparr>instance_state = ALIVE_INSTANCE_STATE, valid_data = True\<rparr>)]\<rparr>,
        ''[domain=7] TOPIC: aircraft coredata2'' @ newline
          @ ''Sample '' @ [CHR 0x27] @ ''1'' @ [CHR 0x27] @ '' RECEIVED'' @ newline @ ''a'' @ newline
          @ ''[domain=7] TOPIC: aircraft coredata2'' @ newline
          @ ''Sample '' @ [CHR 0x27] @ ''2'' @ [CHR 0x27] @ '' RECEIVED'' @ newline @ ''b'' @ newline) \<and>
   fst (snd (on_data_available CoreData (\<lambda>s. s) (\<lambda>k. False) (new_Monitor 7)
     \<lparr>get_topicdescription = Some ''CoreData2Topic'',
      queue = [(''a'', \<lparr>instance_state = ALIVE_INSTANCE_STATE, valid_data = True\<rparr>),
               (''b'', \<lparr>instance_state = ALIVE_INSTANCE_STATE, valid_data = True\<rparr>),
               (''c'', \<lparr>instance_state = ALIVE_INSTANCE_STATE, valid_data = True\<rparr>)]\<rparr> []))
     = \<lparr>get_topicdescription = Some ''CoreData2Topic'', queue = []\<rparr>"
proof -
  let ?ok = "\<lparr>instance_state = ALIVE_INSTANCE_STATE, valid_data = True\<rparr>"
  let ?m = "\<lparr>get_topicdescription = Some ''MessagingTopic'', queue = [(''a'', ?ok)]\<rparr>"
  let ?r = "\<lparr>get_topicdescription = Some ''CoreData2Topic'',
      queue = [(''a'', ?ok), (''b'', ?ok), (''c'', ?ok)]\<rparr>"
  note start = stop_flag_ends_draining [THEN conjunct1, rule_format,
      where kind = Messaging and body = "\<lambda>s :: string. s" and g_stop = "\<lambda>k. True"
        and L = "new_Monitor 7" and reader = ?m and out = "''out''"]
  note mid = stop_flag_ends_draining [THEN conjunct2, THEN conjunct1, rule_format,
      where header = Messaging_header and body = "\<lambda>s :: string. s" and g_stop = "\<lambda>k. 5 \<le> k"
        and k = 5 and L = "new_Monitor 7" and reader = ?m and out = "''out''"]
  note two = stop_flag_ends_draining [THEN conjunct2, THEN conjunct2, rule_format,
      where kind = CoreData and body = "\<lambda>s :: string. s" and g_stop = "\<lambda>k. 2 \<le> k"
        and L = "new_Monitor 7" and reader = ?r and out = "[]" and n = 2]
  note all = stop_flag_ends_draining [THEN conjunct2, THEN conjunct2, rule_format,
      where kind = CoreData and body = "\<lambda>s :: string. s" and g_stop = "\<lambda>k. False"
        and L = "new_Monitor 7" and reader = ?r and out = "[]" and n = 3]
  have h: "header_of CoreData ?r \<lparr>m_samples = 0, m_domain_id = 7\<rparr>
      = ''[domain=7] TOPIC: aircraft coredata2'' @ newline"
    by (simp add: header_of_def CoreData_header_def subtype_def show_int_def)
  from start have 1: "on_data_available Messaging (\<lambda>s. s) (\<lambda>k. True) (new_Monitor 7) ?m ''out''
     = (new_Monitor 7, ?m, ''out'')"
    by simp
  from mid have 2: "drain Messaging_header (\<lambda>s. s) (\<lambda>k. 5 \<le> k) 5 (new_Monitor 7) ?m ''out''
     = (new_Monitor 7, ?m, ''out'')"
    by simp
  from two have 3: "on_data_available CoreData (\<lambda>s. s) (\<lambda>k. 2 \<le> k) (new_Monitor 7) ?r []
     = (\<lparr>m_samples = 2, m_domain_id = 7\<rparr>,
        \<lparr>get_topicdescription = Some ''CoreData2Topic'', queue = [(''c'', ?ok)]\<rparr>,
        ''[domain=7] TOPIC: aircraft coredata2'' @ newline
          @ ''Sample '' @ [CHR 0x27] @ ''1'' @ [CHR 0x27] @ '' RECEIVED'' @ newline @ ''a'' @ newline
          @ ''[domain=7] TOPIC: aircraft coredata2'' @ newline
          @ ''Sample '' @ [CHR 0x27] @ ''2'' @ [CHR 0x27] @ '' RECEIVED'' @ newline @ ''b'' @ newline)"
    by (simp add: accepted_def new_Monitor_def h record_text_def)
  from all have 4: "fst (snd (on_data_available CoreData (\<lambda>s. s) (\<lambda>k. False) (new_Monitor 7) ?r []))
     = \<lparr>get_topicdescription = Some ''CoreData2Topic'', queue = []\<rparr>"
    by simp
  from 1 2 3 4 show ?thesis by (intro conjI)
qed

section \<open>The topic classifier\<close>

text \<open>
  Claim C6, amended. The classifier has three reserved topic names, not four:
  \<^verbatim>\<open>CoreData2Topic\<close>, \<^verbatim>\<open>CoreData3Topic\<close> and \<^verbatim>\<open>CoreData4Topic\<close> map to the labels
  \<^verbatim>\<open>coredata2\<close>, \<^verbatim>\<open>coredata3\<close> and \<^verbatim>\<open>coredata4\<close>. Every other name (the canonical
  name \<^verbatim>\<open>CoreDataTopic\<close>, arbitrary strings, the empty name) and a reader without topic
  description map to the generic label \<^verbatim>\<open>coredata\<close>.
\<close>

theorem topic_classifier_three_reserved_names:
  "(get_topicdescription reader = Some ''CoreData2Topic'' \<longrightarrow> subtype reader = ''coredata2'') \<and>
   (get_topicdescription reader = Some ''CoreData3Topic'' \<longrightarrow> subtype reader = ''coredata3'') \<and>
   (get_topicdescription reader = Some ''CoreData4Topic'' \<longrightarrow> subtype reader = ''coredata4'') \<and>
   (get_topicdescription reader \<notin>
      {Some ''CoreData2Topic'', Some ''CoreData3Topic'', Some ''CoreData4Topic''} \<longrightarrow>
    subtype reader = ''coredata'')"
  by (cases "get_topicdescription reader") (auto simp: subtype_def)

text \<open>The theorem on the three reserved names, the canonical name and other readers.\<close>

theorem topic_classifier_three_reserved_names_witness:
  "subtype (\<lparr>get_topicdescription = Some ''CoreData2Topic'', queue = []\<rparr> :: unit DataReader) = ''coredata2'' \<and>
   subtype (\<lparr>get_topicdescription = Some ''CoreData3Topic'', queue = []\<rparr> :: unit DataReader) = ''coredata3'' \<and>
   subtype (\<lparr>get_topicdescription = Some ''CoreData4Topic'', queue = []\<rparr> :: unit DataReader) = ''coredata4'' \<and>
   subtype (\<lparr>get_topicdescription = Some ''CoreDataTopic'', queue = []\<rparr> :: unit DataReader) = ''coredata'' \<and>
   subtype (\<lparr>get_topicdescription = Some ''IntelligenceTopic'', queue = []\<rparr> :: unit DataReader) = ''coredata'' \<and>
   subtype (\<lparr>get_topicdescription = Some [], queue = []\<rparr> :: unit DataReader) = ''coredata'' \<and>
   subtype (\<lparr>get_topicdescription = None, queue = []\<rparr> :: unit DataReader) = ''coredata''"
proof -
  note t = topic_classifier_three_reserved_names
  have 2: "subtype (\<lparr>get_topicdescription = Some ''CoreData2Topic'', queue = []\<rparr> :: unit DataReader) = ''coredata2''"
    using t [of "\<lparr>get_topicdescription = Some ''CoreData2Topic'', queue = []\<rparr>"] by simp
  have 3: "subtype (\<lparr>get_topicdescription = Some ''CoreData3Topic'', queue = []\<rparr> :: unit DataReader) = ''coredata3''"
    using t [of "\<lparr>get_topicdescription = Some ''CoreData3Topic'', queue = []\<rparr>"] by simp
  have 4: "subtype (\<lparr>get_topicdescription = Some ''CoreData4Topic'', queue = []\<rparr> :: unit DataReader) = ''coredata4''"
    using t [of "\<lparr>get_topicdescription = Some ''CoreData4Topic'', queue = []\<rparr>"] by simp
  have 1: "subtype (\<lparr>get_topicdescription = Some ''CoreDataTopic'', queue = []\<rparr> :: unit DataReader) = ''coredata''"
    using t [of "\<lparr>get_topicdescription = Some ''CoreDataTopic'', queue = []\<rparr>"] by simp
  have 5: "subtype (\<lparr>get_topicdescription = Some ''IntelligenceTopic'', queue = []\<rparr> :: unit DataReader) = ''coredata''"
    using t [of "\<lparr>get_topicdescription = Some ''IntelligenceTopic'', queue = []\<rparr>"] by simp
  have 6: "subtype (\<lparr>get_topicdescription = Some [], queue = []\<rparr> :: unit DataReader) = ''coredata''"
    using t [of "\<lparr>get_topicdescription = Some [], queue = []\<rparr>"] by simp
  have 7: "subtype (\<lparr>get_topicdescription = None, queue = []\<rparr> :: unit DataReader) = ''coredata''"
    using t [of "\<lparr>get_topicdescription = None, queue = []\<rparr>"] by simp
  from 1 2 3 4 5 6 7 show ?thesis by (intro conjI)
qed

text \<open>
  Claim C6 as the specification words it asks for four reserved names, each with a
  label of its own that differs from the generic label given to all other names. No
  four topic names have pairwise distinct labels that all differ from the generic one.
\<close>

theorem four_reserved_names_counterexample:
  "\<not> (\<exists>a b c d. distinct [label a, label b, label c, label d] \<and>
         ''coredata'' \<notin> set [label a, label b, label c, label d])"
proof
  assume "\<exists>a b c d. distinct [label a, label b, label c, label d] \<and>
         ''coredata'' \<notin> set [label a, label b, label c, label d]"
  then obtain a b c d where d: "distinct [label a, label b, label c, label d]"
    and n: "''coredata'' \<notin> set [label a, label b, label c, label d]"
    by blast
  have "label x \<in> {''coredata2'', ''coredata3'', ''coredata4''}" if "label x \<noteq> ''coredata''" for x
    using label_range [of x] that by blast
  with n have "label a \<in> {''coredata2'', ''coredata3'', ''coredata4''}"
    "label b \<in> {''coredata2'', ''coredata3'', ''coredata4''}"
    "label c \<in> {''coredata2'', ''coredata3'', ''coredata4''}"
    "label d \<in> {''coredata2'', ''coredata3'', ''coredata4''}"
    by (metis list.set_intros(1,2))+
  then have "\<not> distinct [label a, label b, label c, label d]"
    by (rule four_in_three)
  with d show False by contradiction
qed

section \<open>Setup failures\<close>

text \<open>
  Claim C7. For every requested domain: if participant creation fails, the iteration
  logs the failure and does nothing else (no subscriber, topic or reader is asked for)
  and adds no session; if subscriber creation fails, the iteration logs the failure,
  deletes the participant it had created, and adds no session. In both cases the loop
  goes on: the sessions it ends with are those it would have without the failed domain,
  and the calls made for the other domains are the same.
\<close>

theorem failed_domains_are_skipped:
  "(\<forall>q d bus.
      create_participant bus = None \<longrightarrow>
        setup_domain q d bus =
          ([Create_participant d,
            Cerr (''Failed to create DomainParticipant for domain '' @ show_int d)], None)) \<and>
   (\<forall>q d bus p.
      create_participant bus = Some p \<and> create_subscriber bus = None \<longrightarrow>
        setup_domain q d bus =
          ([Create_participant d,
            Cout (''Monitor: DomainParticipant created for domain '' @ show_int d),
            Create_subscriber p,
            Cerr (''Failed to create Subscriber for domain '' @ show_int d),
            Delete_participant p], None)) \<and>
   (\<forall>q before d bus after contexts calls.
      snd (setup_domain q d bus) = None \<longrightarrow>
        setup_loop q (before @ (d, bus) # after) (contexts, calls) =
          (fst (setup_loop q (before @ after) (contexts, calls)),
           calls @ domain_calls q before @ fst (setup_domain q d bus) @ domain_calls q after))"
  apply (intro conjI allI impI)
    apply (erule setup_domain_no_participant)
   apply (erule setup_domain_no_subscriber)
  apply (erule setup_loop_skips)
  done

text \<open>
  The theorem on the domains 1, 3 and 4, where the participant of domain 3 cannot be
  created: the sessions are those of the domains 1 and 4. Also on a domain whose
  subscriber cannot be created.
\<close>

theorem failed_domains_are_skipped_witness:
  "setup_domain DATAREADER_QOS_DEFAULT 3 ((working_bus 30)\<lparr>create_participant := None\<rparr>) =
     ([Create_participant 3, Cerr ''Failed to create DomainParticipant for domain 3''], None) \<and>
   setup_domain DATAREADER_QOS_DEFAULT 4 ((working_bus 40)\<lparr>create_subscriber := None\<rparr>) =
     ([Create_participant 4, Cout ''Monitor: DomainParticipant created for domain 4'',
       Create_subscriber 40, Cerr ''Failed to create Subscriber for domain 4'',
       Delete_participant 40], None) \<and>
   map ctx_id (fst (setup_loop DATAREADER_QOS_DEFAULT
     [(1, working_bus 10), (3, (working_bus 30)\<lparr>create_participant := None\<rparr>), (4, working_bus 40)]
     ([], []))) = [1, 4] \<and>
   fst (setup_loop DATAREADER_QOS_DEFAULT
     [(1, working_bus 10), (3, (working_bus 30)\<lparr>create_participant := None\<rparr>), (4, working_bus 40)]
     ([], [])) =
   fst (setup_loop DATAREADER_QOS_DEFAULT [(1, working_bus 10), (4, working_bus 40)] ([], []))"
proof -
  let ?q = DATAREADER_QOS_DEFAULT
  let ?b3 = "(working_bus 30)\<lparr>create_participant := None\<rparr>"
  let ?b4 = "(working_bus 40)\<lparr>create_subscriber := None\<rparr>"
  note np = failed_domains_are_skipped [THEN conjunct1, rule_format,
      where q = ?q and d = 3 and bus = ?b3]
  note ns = failed_domains_are_skipped [THEN conjunct2, THEN conjunct1, rule_format,
      where q = ?q and d = 4 and bus = ?b4 and p = 40]
  note sk = failed_domains_are_skipped [THEN conjunct2, THEN conjunct2, rule_format,
      where q = ?q and before = "[(1, working_bus 10)]" and d = 3 and bus = ?b3
        and after = "[(4, working_bus 40)]" and contexts = "[]" and calls = "[]"]
  have s3: "show_int 3 = ''3''" and s4: "show_int 4 = ''4''"
    by (simp_all add: show_int_def)
  have 1: "setup_domain ?q 3 ?b3 =
     ([Create_participant 3, Cerr ''Failed to create DomainParticipant for domain 3''], None)"
    using np by (simp add: s3 working_bus_def)
  have 2: "setup_domain ?q 4 ?b4 =
     ([Create_participant 4, Cout ''Monitor: DomainParticipant created for domain 4'',
       Create_subscriber 40, Cerr ''Failed to create Subscriber for domain 4'',
       Delete_participant 40], None)"
    using ns by (simp add: s4 working_bus_def)
  have 3: "fst (setup_loop ?q [(1, working_bus 10), (3, ?b3), (4, working_bus 40)] ([], [])) =
     fst (setup_loop ?q [(1, working_bus 10), (4, working_bus 40)] ([], []))"
    using sk 1 by simp
  have "map ctx_id (fst (setup_loop ?q [(1, working_bus 10), (4, working_bus 40)] ([], []))) = [1, 4]"
    using working_session [of ?q 1 10] working_session [of ?q 4 40]
    by (auto simp: setup_loop_closed_form domain_sessions_def List.map_filter_simps)
  with 3 have 4: "map ctx_id (fst (setup_loop ?q
      [(1, working_bus 10), (3, ?b3), (4, working_bus 40)] ([], []))) = [1, 4]"
    by simp
  from 1 2 4 3 show ?thesis by (intro conjI)
qed

end
